theory Spec2Isabelle
  imports Main "HOL-Library.AList" "HOL-Library.Sublist"
begin

section \<open>The Thing model of the gateway (src/models/thing.js)\<close>

text \<open>
  A shallow embedding of \<^verbatim>\<open>thing.js\<close>. JavaScript objects that the code shares or
  mutates in place live in an explicit store and are named by references; scalar fields
  of a Thing are fields of a record. Everything a method does beyond returning a value
  (the file system, the console, the database collaborator, the web sockets, the
  listeners that were called) is a field of the record \<open>world\<close>, passed in and returned.
\<close>

subsection \<open>Data\<close>

type_synonym ref = nat

text \<open>A property, action or event descriptor: a caller-supplied payload and \<^verbatim>\<open>href\<close>.\<close>

record descriptor =
  payload :: string
  desc_href :: "string option"

text \<open>A link object \<^verbatim>\<open>{rel, mediaType, href}\<close>; an absent member is \<open>None\<close>.\<close>

record link =
  rel :: "string option"
  mediaType :: "string option"
  link_href :: "string option"

record iconData =
  icon_data :: "string option"
  mime :: "string option"

text \<open>
  A Thing description, as the constructor reads it and as \<^verbatim>\<open>getDescription\<close> builds it.
  Every member is optional (\<open>None\<close> is \<^verbatim>\<open>undefined\<close> or an absent member; for
  \<open>d_iconHref\<close> also \<^verbatim>\<open>null\<close>). The collections and the link array are objects
  of the store. The floorplan numbers are stored and copied, never computed with.
  \<open>d_others\<close> are the names of the own members that the constructor does not read;
  the members of a description are data, as in an object parsed from JSON.
\<close>

record description =
  d_name :: "string option"
  d_type :: "string option"
  d_context :: "string option"
  d_atType :: "string list option"
  d_description :: "string option"
  d_href :: "string option"
  d_properties :: "ref option"
  d_actions :: "ref option"
  d_events :: "ref option"
  d_links :: "ref option"
  d_uiHref :: "string option"
  d_floorplanX :: "int option"
  d_floorplanY :: "int option"
  d_selectedCapability :: "string option"
  d_iconHref :: "string option"
  d_iconData :: "iconData option"
  d_others :: "string list"

record event =
  ev_name :: string
  ev_data :: string
  thingId :: "string option"
  timestamp :: string

record action =
  action_name :: string
  action_input :: string

text \<open>A listener is a callback function; the number is its identity (\<^verbatim>\<open>===\<close>).\<close>

type_synonym listener = nat

datatype readyState = CONNECTING | OPEN | CLOSING | CLOSED

text \<open>
  The object built by \<^verbatim>\<open>new Thing(id, description)\<close>. \<open>properties\<close>, \<open>actions\<close>,
  \<open>events\<close> and \<open>links\<close> are references into the store, \<open>websockets\<close> is the array of
  registered socket objects, \<open>emitter\<close> is the listener array that the EventEmitter keeps
  for \<^verbatim>\<open>Constants.EVENT\<close>, in registration order.
\<close>

record thing =
  thing_id :: string
  name :: string
  type :: string
  atContext :: string
  atType :: "string list"
  description :: string
  href :: string
  properties :: ref
  actions :: ref
  events :: ref
  eventsDispatched :: "event list"
  emitter :: "listener list"
  floorplanX :: "int option"
  floorplanY :: "int option"
  selectedCapability :: "string option"
  websockets :: "ref list"
  links :: ref
  iconHref :: "string option"

text \<open>
  The world outside a Thing's own fields. The first four fields are the store: a
  reference is an index into the list of its kind, and a new object is appended.
  \<^item> \<open>colls\<close>: the objects used as dictionaries from a name to a descriptor, in key order;
  \<^item> \<open>descs\<close>: the descriptor objects; \<open>arrs\<close>: the link arrays; \<open>linkobjs\<close>: the links;
  \<^item> \<open>sockets\<close>: the \<^verbatim>\<open>readyState\<close> of every socket object, \<open>closeRequests\<close>: the
    sockets whose \<^verbatim>\<open>close()\<close> was called, in call order;
  \<^item> \<open>files\<close>: the paths that exist on disk; \<open>console\<close>: the \<^verbatim>\<open>console.error\<close> lines;
  \<^item> \<open>db\<close>: the calls of \<^verbatim>\<open>Database.updateThing\<close>;
  \<^item> \<open>delivered\<close>: the listener calls made by \<^verbatim>\<open>emit\<close>, in call order.
\<close>

record world =
  colls :: "(string \<times> ref) list list"
  descs :: "descriptor list"
  arrs :: "ref list list"
  linkobjs :: "link list"
  sockets :: "readyState list"
  closeRequests :: "ref list"
  files :: "string set"
  console :: "string list"
  db :: "(string \<times> description) list"
  delivered :: "(listener \<times> event) list"

text \<open>\<^verbatim>\<open>UserProfile.baseDir\<close> and \<^verbatim>\<open>UserProfile.uploadsDir\<close>; the module is a parameter.\<close>

record profile =
  baseDir :: string
  uploadsDir :: string

text \<open>
  What the file system does to one call: whether deleting an existing file is refused,
  the six characters \<^verbatim>\<open>tmp\<close> draws for the template (\<open>None\<close>: the file cannot be created),
  and whether writing the payload fails.
\<close>

record fs_env =
  unlink_fails :: bool
  tmp_name :: "string option"
  write_fails :: bool

datatype error = IOError | TypeError

datatype ret = Undefined | Promise

datatype outcome = Returned | Threw

subsection \<open>JavaScript and library primitives\<close>

text \<open>An optional string is falsy when it is \<^verbatim>\<open>undefined\<close>, \<^verbatim>\<open>null\<close> or empty.\<close>

definition falsy :: "string option \<Rightarrow> bool" where
  "falsy v = (case v of None \<Rightarrow> True | Some s \<Rightarrow> s = [])"

text \<open>\<^verbatim>\<open>a || b\<close> on an optional string with a string default.\<close>

definition or_else :: "string option \<Rightarrow> string \<Rightarrow> string" where
  "or_else v dflt = (case v of None \<Rightarrow> dflt | Some s \<Rightarrow> if s = [] then dflt else s)"


text \<open>\<^verbatim>\<open>path.join\<close> and \<^verbatim>\<open>path.basename\<close> on normalised paths.\<close>

definition path_join :: "string \<Rightarrow> string \<Rightarrow> string" where
  "path_join a b = (case b of [] \<Rightarrow> a | c # _ \<Rightarrow> if c = CHR ''/'' then a @ b else a @ ''/'' @ b)"

definition basename :: "string \<Rightarrow> string" where
  "basename p = rev (takeWhile (\<lambda>c. c \<noteq> CHR ''/'') (rev p))"

text \<open>Allocation: the new object gets the next index of its list.\<close>

definition new_coll :: "(string \<times> ref) list \<Rightarrow> world \<Rightarrow> world \<times> ref" where
  "new_coll c w = (w\<lparr>colls := colls w @ [c]\<rparr>, length (colls w))"

definition new_link :: "link \<Rightarrow> world \<Rightarrow> world \<times> ref" where
  "new_link l w = (w\<lparr>linkobjs := linkobjs w @ [l]\<rparr>, length (linkobjs w))"

definition new_arr :: "ref list \<Rightarrow> world \<Rightarrow> world \<times> ref" where
  "new_arr a w = (w\<lparr>arrs := arrs w @ [a]\<rparr>, length (arrs w))"

text \<open>
  In-place updates: \<^verbatim>\<open>array.push(x)\<close>, \<^verbatim>\<open>object[k] = v\<close> on a dictionary, the
  replacement of a link object's members, and \<^verbatim>\<open>descriptor.href = h\<close>.
\<close>

definition push :: "ref \<Rightarrow> ref \<Rightarrow> world \<Rightarrow> world" where
  "push a x w = w\<lparr>arrs := (arrs w)[a := arrs w ! a @ [x]]\<rparr>"

definition put_member :: "ref \<Rightarrow> string \<Rightarrow> ref \<Rightarrow> world \<Rightarrow> world" where
  "put_member c k v w = w\<lparr>colls := (colls w)[c := AList.update k v (colls w ! c)]\<rparr>"

definition put_link :: "ref \<Rightarrow> link \<Rightarrow> world \<Rightarrow> world" where
  "put_link r l w = w\<lparr>linkobjs := (linkobjs w)[r := l]\<rparr>"

definition set_href :: "ref \<Rightarrow> string \<Rightarrow> world \<Rightarrow> world" where
  "set_href d h w = w\<lparr>descs := (descs w)[d := (descs w ! d)\<lparr>desc_href := Some h\<rparr>]\<rparr>"

text \<open>The links an array holds, read through the store.\<close>

definition links_of :: "world \<Rightarrow> ref \<Rightarrow> link list" where
  "links_of w a = map (\<lambda>r. linkobjs w ! r) (arrs w ! a)"

text \<open>
  \<^verbatim>\<open>JSON.parse(JSON.stringify(links))\<close>: \<^verbatim>\<open>stringify\<close> reads the links of the array
  (their members are strings, which the round trip keeps), and \<^verbatim>\<open>parse\<close> builds a new
  link object for each of them and a new array of these.
\<close>

fun new_links :: "link list \<Rightarrow> world \<Rightarrow> world \<times> ref list" where
  "new_links [] w = (w, [])"
| "new_links (l # ls) w =
     (let (w1, r) = new_link l w;
          (w2, rs) = new_links ls w1
      in (w2, r # rs))"

definition json_copy :: "ref \<Rightarrow> world \<Rightarrow> world \<times> ref" where
  "json_copy a w = (let (w1, rs) = new_links (links_of w a) w in new_arr rs w1)"

subsection \<open>getDescription\<close>

definition getDescription :: "string option \<Rightarrow> bool \<Rightarrow> world \<Rightarrow> thing \<Rightarrow> world \<times> description" where
  "getDescription reqHost reqSecure w t =
     (let (w1, links') = json_copy (links t) w;
          w2 = (case reqHost of
                  None \<Rightarrow> w1
                | Some host \<Rightarrow>
                    (let (w', wsLink) =
                       new_link \<lparr>rel = Some ''alternate'', mediaType = None,
                                 link_href = Some ((if reqSecure then ''wss'' else ''ws'') @ ''://'' @ host @ href t)\<rparr> w1
                     in push links' wsLink w'))
      in (w2,
          \<lparr>d_name = Some (name t),
           d_type = Some (type t),
           d_context = Some (atContext t),
           d_atType = Some (atType t),
           d_description = Some (description t),
           d_href = Some (href t),
           d_properties = Some (properties t),
           d_actions = Some (actions t),
           d_events = Some (events t),
           d_links = Some links',
           d_uiHref = None,
           d_floorplanX = floorplanX t,
           d_floorplanY = floorplanY t,
           d_selectedCapability = selectedCapability t,
           d_iconHref = iconHref t,
           d_iconData = None, d_others = []\<rparr>))"

text \<open>The links of the description that \<open>getDescription\<close> returns.\<close>

definition described_links :: "string option \<Rightarrow> bool \<Rightarrow> world \<Rightarrow> thing \<Rightarrow> link list" where
  "described_links reqHost reqSecure w t =
     links_of w (links t) @
     (case reqHost of
        None \<Rightarrow> []
      | Some host \<Rightarrow>
          [\<lparr>rel = Some ''alternate'', mediaType = None,
            link_href = Some ((if reqSecure then ''wss'' else ''ws'') @ ''://'' @ host @ href t)\<rparr>])"

text \<open>
  \<^verbatim>\<open>Database.updateThing(id, description)\<close>: the collaborator is recorded by its calls.
  The four setters end with the same line,
  \<^verbatim>\<open>return Database.updateThing(this.id, this.getDescription())\<close>.
\<close>

definition updateThing :: "string \<Rightarrow> description \<Rightarrow> world \<Rightarrow> world" where
  "updateThing i d w = w\<lparr>db := db w @ [(i, d)]\<rparr>"

definition persist :: "world \<Rightarrow> thing \<Rightarrow> world \<times> ret" where
  "persist w t = (let (w1, d) = getDescription None False w t in (updateThing (thing_id t) d w1, Promise))"

subsection \<open>The file system\<close>

text \<open>
  \<^verbatim>\<open>fs.unlinkSync(path)\<close> throws when the file is missing or the deletion is refused.
\<close>

definition unlinkSync :: "fs_env \<Rightarrow> string \<Rightarrow> string set \<Rightarrow> error + string set" where
  "unlinkSync env p fs = (if p \<in> fs \<and> \<not> unlink_fails env then Inr (fs - {p}) else Inl IOError)"

text \<open>
  \<^verbatim>\<open>fs.unlinkSync(tempfile.fd)\<close>: the argument is a file descriptor, a number, where a
  path is required; Node rejects it with a TypeError and no file is touched.
\<close>

definition unlinkSync_fd :: "string set \<Rightarrow> error + string set" where
  "unlinkSync_fd fs = Inl TypeError"

text \<open>
  \<^verbatim>\<open>tmp.fileSync({template: path.join(dir, 'XXXXXX' + extension), keep: true, ...})\<close>
  creates a file that did not exist and returns its name; it throws when the file
  cannot be created.
\<close>

definition tmp_fileSync :: "fs_env \<Rightarrow> string \<Rightarrow> string \<Rightarrow> string set \<Rightarrow> error + (string set \<times> string)" where
  "tmp_fileSync env dir extension fs =
     (case tmp_name env of
        None \<Rightarrow> Inl IOError
      | Some x \<Rightarrow>
          (let nm = path_join dir (x @ extension)
           in if nm \<in> fs then Inl IOError else Inr (insert nm fs, nm)))"

subsection \<open>setIcon\<close>

text \<open>
  The block that \<^verbatim>\<open>setIcon\<close> and \<^verbatim>\<open>remove\<close> both start with: when an icon is set,
  try to delete its file, log a failure and go on, and clear \<^verbatim>\<open>iconHref\<close> either way.
\<close>

definition unlink_icon :: "profile \<Rightarrow> fs_env \<Rightarrow> world \<Rightarrow> thing \<Rightarrow> world \<times> thing" where
  "unlink_icon up env w t =
     (case iconHref t of
        None \<Rightarrow> (w, t)
      | Some h \<Rightarrow>
          if h = [] then (w, t)
          else
            ((case unlinkSync env (path_join (baseDir up) h) (files w) of
                Inl e \<Rightarrow> w\<lparr>console := console w @ [''Failed to remove old icon:'']\<rparr>
              | Inr fs \<Rightarrow> w\<lparr>files := fs\<rparr>),
             t\<lparr>iconHref := None\<rparr>))"

definition setIcon :: "profile \<Rightarrow> fs_env \<Rightarrow> iconData \<Rightarrow> bool \<Rightarrow> world \<Rightarrow> thing \<Rightarrow> world \<times> thing \<times> ret" where
  "setIcon up env icon updateDatabase w t =
     (if falsy (icon_data icon) \<or>
         mime icon \<notin> {Some ''image/jpeg'', Some ''image/png'', Some ''image/svg+xml''}
      then (w\<lparr>console := console w @ [''Invalid icon data:'']\<rparr>, t, Undefined)
      else
        (let (w1, t1) = unlink_icon up env w t;
             extension =
               (if mime icon = Some ''image/jpeg'' then ''.jpg''
                else if mime icon = Some ''image/png'' then ''.png''
                else ''.svg'')
         in case tmp_fileSync env (uploadsDir up) extension (files w1) of
              Inl e \<Rightarrow> (w1\<lparr>console := console w1 @ [''Failed to write icon:'']\<rparr>, t1, Undefined)
            | Inr (fs2, tempname) \<Rightarrow>
                if write_fails env
                then (case unlinkSync_fd fs2 of
                        Inl e \<Rightarrow>
                          (w1\<lparr>files := fs2, console := console w1 @ [''Failed to write icon:'']\<rparr>,
                           t1, Undefined)
                      | Inr fs3 \<Rightarrow>
                          (w1\<lparr>files := fs3, console := console w1 @ [''Failed to write icon:'']\<rparr>,
                           t1, Undefined))
                else
                  (let w2 = w1\<lparr>files := fs2\<rparr>;
                       t2 = t1\<lparr>iconHref := Some (path_join ''/uploads'' (basename tempname))\<rparr>
                   in if updateDatabase
                      then (let (w3, r) = persist w2 t2 in (w3, t2, r))
                      else (w2, t2, Undefined))))"

subsection \<open>The constructor\<close>

text \<open>
  Modelled from the spec: \<^verbatim>\<open>Constants.THINGS_PATH\<close>, the things root of
  \<^verbatim>\<open><things-root>/<id>\<close>, which the spec's example writes \<^verbatim>\<open>/things/<id>\<close>.
\<close>

definition THINGS_PATH :: string where
  "THINGS_PATH = ''/things''"

text \<open>
  Modelled from the spec: \<^verbatim>\<open>Constants.PROPERTIES_PATH\<close>, the collection segment of a
  property's href \<^verbatim>\<open><things-root>/<id>/properties/<name>\<close>.
\<close>

definition PROPERTIES_PATH :: string where
  "PROPERTIES_PATH = ''/properties''"

text \<open>
  \<^verbatim>\<open>for (const propertyName in description.properties)\<close>: the descriptor object gets
  its href and becomes a member of the Thing's own, new \<^verbatim>\<open>properties\<close> object.
\<close>

fun properties_loop :: "string \<Rightarrow> ref \<Rightarrow> (string \<times> ref) list \<Rightarrow> world \<Rightarrow> world" where
  "properties_loop tid props [] w = w"
| "properties_loop tid props ((propertyName, property) # rest) w =
     properties_loop tid props rest
       (put_member props propertyName property
          (set_href property
             (THINGS_PATH @ ''/'' @ tid @ PROPERTIES_PATH @ ''/'' @ propertyName) w))"

text \<open>
  \<^verbatim>\<open>for (const actionName in this.actions)\<close> and the same loop over the events:
  \<open>base\<close> is \<^verbatim>\<open>`${this.href}/actions`\<close> or \<^verbatim>\<open>`${this.href}/events`\<close>.
\<close>

fun href_loop :: "string \<Rightarrow> (string \<times> ref) list \<Rightarrow> world \<Rightarrow> world" where
  "href_loop base [] w = w"
| "href_loop base ((n, d) # rest) w = href_loop base rest (set_href d (base @ ''/'' @ n) w)"

text \<open>
  \<^verbatim>\<open>for (const link of description.links)\<close>: the first alternate HTML link whose href
  starts with \<^verbatim>\<open>http\<close> gives the target of the UI link. The href is read only of a link
  that is alternate and HTML; \<^verbatim>\<open>link.href.startsWith\<close> throws a TypeError when that link
  has no href.
\<close>

fun link_loop :: "link list \<Rightarrow> error + string option" where
  "link_loop [] = Inr None"
| "link_loop (link # rest) =
     (if rel link = Some ''alternate'' \<and> mediaType link = Some ''text/html''
      then (case link_href link of
              None \<Rightarrow> Inl TypeError
            | Some h \<Rightarrow> if prefix ''http'' h then Inr (Some h) else link_loop rest)
      else link_loop rest)"

text \<open>
  The href to give the UI link instead of the Thing's own: \<^verbatim>\<open>uiHref\<close> when the
  description has one, else what the loop over its links finds, if it has links. The
  test \<^verbatim>\<open>description.hasOwnProperty('uiHref')\<close> comes first; it throws a TypeError when
  the description has an own member named \<^verbatim>\<open>hasOwnProperty\<close>, which is not a function.
\<close>

definition ui_href :: "world \<Rightarrow> description \<Rightarrow> error + string option" where
  "ui_href w d =
     (if ''hasOwnProperty'' \<in> set (d_others d) then Inl TypeError
      else if \<not> falsy (d_uiHref d) then Inr (d_uiHref d)
      else (case d_links d of None \<Rightarrow> Inr None | Some a \<Rightarrow> link_loop (links_of w a)))"

text \<open>
  The constructor after its guard, as far as the UI link object: the three collections,
  the hrefs of the properties, the three base links and the UI link, which starts with
  the Thing's own href. The result is the store and the references of the collections,
  of the link array and of the UI link.
\<close>

definition prepare :: "string \<Rightarrow> description \<Rightarrow> world \<Rightarrow> world \<times> ref \<times> ref \<times> ref \<times> ref \<times> ref" where
  "prepare tid d w =
     (let this_href = THINGS_PATH @ ''/'' @ tid;
          (w1, props) = new_coll [] w;
          (w2, acts) = (case d_actions d of Some a \<Rightarrow> (w1, a) | None \<Rightarrow> new_coll [] w1);
          (w3, evs) = (case d_events d of Some e \<Rightarrow> (w2, e) | None \<Rightarrow> new_coll [] w2);
          w4 = (case d_properties d of
                  None \<Rightarrow> w3
                | Some p \<Rightarrow> properties_loop tid props (colls w3 ! p) w3);
          (w5, l1) = new_link \<lparr>rel = Some ''properties'', mediaType = None,
                                link_href = Some (this_href @ ''/properties'')\<rparr> w4;
          (w6, l2) = new_link \<lparr>rel = Some ''actions'', mediaType = None,
                                link_href = Some (this_href @ ''/actions'')\<rparr> w5;
          (w7, l3) = new_link \<lparr>rel = Some ''events'', mediaType = None,
                                link_href = Some (this_href @ ''/events'')\<rparr> w6;
          (w8, lks) = new_arr [l1, l2, l3] w7;
          (w9, uiLink) = new_link \<lparr>rel = Some ''alternate'', mediaType = Some ''text/html'',
                                    link_href = Some this_href\<rparr> w8
      in (w9, props, acts, evs, lks, uiLink))"

text \<open>
  The constructor from the UI link to the hrefs of the actions and events. When the
  search for the UI link throws, the constructor ends there, with the store as it is
  by then.
\<close>

definition assemble :: "string \<Rightarrow> description \<Rightarrow> world \<Rightarrow> world \<times> (error + thing)" where
  "assemble tid d w =
     (let this_href = THINGS_PATH @ ''/'' @ tid;
          (w9, props, acts, evs, lks, uiLink) = prepare tid d w
      in case ui_href w9 d of
           Inl e \<Rightarrow> (w9, Inl e)
         | Inr target \<Rightarrow>
             (let w9' = (case target of
                           None \<Rightarrow> w9
                         | Some h \<Rightarrow>
                             put_link uiLink
                               \<lparr>rel = Some ''alternate'', mediaType = Some ''text/html'',
                                link_href = Some h\<rparr> w9);
                  w10 = push lks uiLink w9';
                  w11 = href_loop (this_href @ ''/actions'') (colls w10 ! acts) w10;
                  w12 = href_loop (this_href @ ''/events'') (colls w11 ! evs) w11
              in (w12,
                  Inr \<lparr>thing_id = tid,
                       name = or_else (d_name d) [],
                       type = or_else (d_type d) [],
                       atContext = or_else (d_context d) ''https://iot.mozilla.org/schemas'',
                       atType = (case d_atType d of None \<Rightarrow> [] | Some ts \<Rightarrow> ts),
                       description = or_else (d_description d) [],
                       href = this_href,
                       properties = props,
                       actions = acts,
                       events = evs,
                       eventsDispatched = [],
                       emitter = [],
                       floorplanX = d_floorplanX d,
                       floorplanY = d_floorplanY d,
                       selectedCapability = d_selectedCapability d,
                       websockets = [],
                       links = lks,
                       iconHref = None\<rparr>)))"

text \<open>
  The end of the constructor: \<^verbatim>\<open>iconHref\<close> is that of the description, or, when the
  description has icon data instead, what \<^verbatim>\<open>this.setIcon(description.iconData, false)\<close>
  leaves.
\<close>

definition construct :: "profile \<Rightarrow> fs_env \<Rightarrow> string \<Rightarrow> description \<Rightarrow> world \<Rightarrow> world \<times> (error + thing)" where
  "construct up env tid d w =
     (case assemble tid d w of
        (w9, Inl e) \<Rightarrow> (w9, Inl e)
      | (w12, Inr t) \<Rightarrow>
          if \<not> falsy (d_iconHref d) then (w12, Inr (t\<lparr>iconHref := d_iconHref d\<rparr>))
          else
            (case d_iconData d of
               None \<Rightarrow> (w12, Inr t)
             | Some icon \<Rightarrow> (let (w13, t', r) = setIcon up env icon False w12 t in (w13, Inr t'))))"

text \<open>
  \<^verbatim>\<open>new Thing(id, description)\<close>. With a falsy id or description the constructor logs
  and returns: nothing is thrown, and \<^verbatim>\<open>new\<close> yields the object as it is then, without a
  single field (\<open>NoFields\<close>). Otherwise it yields the object with its fields, unless the
  constructor throws.
\<close>

datatype thing_object = NoFields | Fields thing

definition Thing :: "profile \<Rightarrow> fs_env \<Rightarrow> string option \<Rightarrow> description option \<Rightarrow> world \<Rightarrow> world \<times> (error + thing_object)" where
  "Thing up env tid desc w =
     (if falsy tid \<or> desc = None
      then (w\<lparr>console := console w @ [''id and description needed to create new Thing'']\<rparr>,
            Inr NoFields)
      else
        (case (tid, desc) of
           (Some i, Some d) \<Rightarrow>
             (case construct up env i d w of
                (w', Inl e) \<Rightarrow> (w', Inl e)
              | (w', Inr t) \<Rightarrow> (w', Inr (Fields t)))
         | _ \<Rightarrow>
             (w\<lparr>console := console w @ [''id and description needed to create new Thing'']\<rparr>,
              Inr NoFields)))"

subsection \<open>Setters\<close>

definition setCoordinates :: "int option \<Rightarrow> int option \<Rightarrow> world \<Rightarrow> thing \<Rightarrow> world \<times> thing \<times> ret" where
  "setCoordinates x y w t =
     (let t' = t\<lparr>floorplanX := x, floorplanY := y\<rparr>; (w', r) = persist w t' in (w', t', r))"

definition setName :: "string \<Rightarrow> world \<Rightarrow> thing \<Rightarrow> world \<times> thing \<times> ret" where
  "setName n w t = (let t' = t\<lparr>name := n\<rparr>; (w', r) = persist w t' in (w', t', r))"

definition setSelectedCapability :: "string option \<Rightarrow> world \<Rightarrow> thing \<Rightarrow> world \<times> thing \<times> ret" where
  "setSelectedCapability capability w t =
     (let t' = t\<lparr>selectedCapability := capability\<rparr>; (w', r) = persist w t' in (w', t', r))"

subsection \<open>Events\<close>

text \<open>
  \<^verbatim>\<open>emitter.emit(Constants.EVENT, event)\<close>: Node's EventEmitter calls the listeners of
  the event name one after the other, in registration order; a listener that throws ends
  the call, and the exception leaves \<^verbatim>\<open>emit\<close>. \<open>raises l e\<close> says whether the callback
  \<open>l\<close> throws on \<open>e\<close>; a callback does not call the Thing's methods itself. The result
  is the calls made and whether one threw.
\<close>

fun emit :: "(listener \<Rightarrow> event \<Rightarrow> bool) \<Rightarrow> listener list \<Rightarrow> event \<Rightarrow> (listener \<times> event) list \<times> bool" where
  "emit raises [] e = ([], False)"
| "emit raises (l # ls) e =
     (if raises l e then ([(l, e)], True)
      else (let (calls, thrown) = emit raises ls e in ((l, e) # calls, thrown)))"

definition dispatchEvent :: "(listener \<Rightarrow> event \<Rightarrow> bool) \<Rightarrow> event \<Rightarrow> world \<Rightarrow> thing \<Rightarrow> world \<times> thing \<times> outcome" where
  "dispatchEvent raises e w t =
     (let e' = (if falsy (thingId e) then e\<lparr>thingId := Some (thing_id t)\<rparr> else e);
          t' = t\<lparr>eventsDispatched := eventsDispatched t @ [e']\<rparr>;
          (calls, thrown) = emit raises (emitter t') e'
      in (w\<lparr>delivered := delivered w @ calls\<rparr>, t', if thrown then Threw else Returned))"

text \<open>\<^verbatim>\<open>emitter.on\<close> appends the listener, whether or not it is registered already.\<close>

definition addEventSubscription :: "listener \<Rightarrow> thing \<Rightarrow> thing" where
  "addEventSubscription callback t = t\<lparr>emitter := emitter t @ [callback]\<rparr>"

text \<open>\<^verbatim>\<open>emitter.removeListener\<close> removes the most recently added instance, if any.\<close>

definition removeEventSubscription :: "listener \<Rightarrow> thing \<Rightarrow> thing" where
  "removeEventSubscription callback t = t\<lparr>emitter := rev (remove1 callback (rev (emitter t)))\<rparr>"

subsection \<open>Sessions, removal, actions\<close>

definition registerWebsocket :: "ref \<Rightarrow> thing \<Rightarrow> thing" where
  "registerWebsocket ws t = t\<lparr>websockets := websockets t @ [ws]\<rparr>"

text \<open>
  \<^verbatim>\<open>ws.close()\<close> on an open or connecting socket: the request is recorded, and the
  socket's \<^verbatim>\<open>readyState\<close> becomes \<^verbatim>\<open>CLOSING\<close>, as the WebSocket interface has it.
\<close>

definition ws_close :: "ref \<Rightarrow> world \<Rightarrow> world" where
  "ws_close ws w = w\<lparr>sockets := (sockets w)[ws := CLOSING], closeRequests := closeRequests w @ [ws]\<rparr>"

fun close_loop :: "ref list \<Rightarrow> world \<Rightarrow> world" where
  "close_loop [] w = w"
| "close_loop (ws # rest) w =
     close_loop rest
       (if sockets w ! ws = OPEN \<or> sockets w ! ws = CONNECTING then ws_close ws w else w)"

definition remove :: "profile \<Rightarrow> fs_env \<Rightarrow> world \<Rightarrow> thing \<Rightarrow> world \<times> thing" where
  "remove up env w t = (let (w1, t1) = unlink_icon up env w t in (close_loop (websockets t1) w1, t1))"



subsection \<open>The methods as operations on a Thing\<close>

datatype op =
    SetCoordinates "int option" "int option"
  | SetName string
  | SetIcon fs_env iconData bool
  | SetSelectedCapability "string option"
  | DispatchEvent event
  | AddEventSubscription listener
  | RemoveEventSubscription listener
  | GetDescription "string option" bool
  | RegisterWebsocket ref
  | Remove fs_env
  | AddAction action
  | RemoveAction action

text \<open>One method call: the world and the Thing after it (the returned value is dropped).\<close>

fun step :: "profile \<Rightarrow> (listener \<Rightarrow> event \<Rightarrow> bool) \<Rightarrow> op \<Rightarrow> world \<times> thing \<Rightarrow> world \<times> thing" where
  "step up raises (SetCoordinates x y) (w, t) = (let (w', t', r) = setCoordinates x y w t in (w', t'))"
| "step up raises (SetName n) (w, t) = (let (w', t', r) = setName n w t in (w', t'))"
| "step up raises (SetIcon env icon u) (w, t) = (let (w', t', r) = setIcon up env icon u w t in (w', t'))"
| "step up raises (SetSelectedCapability c) (w, t) =
     (let (w', t', r) = setSelectedCapability c w t in (w', t'))"
| "step up raises (DispatchEvent e) (w, t) = (let (w', t', r) = dispatchEvent raises e w t in (w', t'))"
| "step up raises (AddEventSubscription l) (w, t) = (w, addEventSubscription l t)"
| "step up raises (RemoveEventSubscription l) (w, t) = (w, removeEventSubscription l t)"
| "step up raises (GetDescription h s) (w, t) = (fst (getDescription h s w t), t)"
| "step up raises (RegisterWebsocket ws) (w, t) = (w, registerWebsocket ws t)"
| "step up raises (Remove env) (w, t) = remove up env w t"
| "step up raises (AddAction a) (w, t) = (w, t)"
| "step up raises (RemoveAction a) (w, t) = (w, t)"

definition run :: "profile \<Rightarrow> (listener \<Rightarrow> event \<Rightarrow> bool) \<Rightarrow> op list \<Rightarrow> world \<times> thing \<Rightarrow> world \<times> thing" where
  "run up raises ops s = fold (step up raises) ops s"

subsection \<open>The constructor's view of a description\<close>






text \<open>What an href loop makes of the descriptors of the store.\<close>

fun hrefs :: "string \<Rightarrow> (string \<times> ref) list \<Rightarrow> descriptor list \<Rightarrow> descriptor list" where
  "hrefs base [] ds = ds"
| "hrefs base ((n, d) # rest) ds = hrefs base rest (ds[d := (ds ! d)\<lparr>desc_href := Some (base @ ''/'' @ n)\<rparr>])"

subsection \<open>The branches of setIcon\<close>

text \<open>The guard of \<open>setIcon\<close> and the extension its \<^verbatim>\<open>switch\<close> picks.\<close>

definition valid_icon :: "iconData \<Rightarrow> bool" where
  "valid_icon icon \<longleftrightarrow>
     \<not> falsy (icon_data icon) \<and>
     mime icon \<in> {Some ''image/jpeg'', Some ''image/png'', Some ''image/svg+xml''}"

definition extension_of :: "iconData \<Rightarrow> string" where
  "extension_of icon =
     (if mime icon = Some ''image/jpeg'' then ''.jpg''
      else if mime icon = Some ''image/png'' then ''.png'' else ''.svg'')"



subsection \<open>What a listener has seen\<close>

text \<open>The event as \<open>dispatchEvent\<close> logs and emits it: with the Thing's id where it had none.\<close>

definition stamped :: "thing \<Rightarrow> event \<Rightarrow> event" where
  "stamped t e = (if falsy (thingId e) then e\<lparr>thingId := Some (thing_id t)\<rparr> else e)"




subsection \<open>Well-formed references\<close>

text \<open>
  In JavaScript a reference always names an object. In the store that is: the
  collections, the link array and the links of a Thing are objects of the store.
\<close>

definition in_store :: "world \<Rightarrow> thing \<Rightarrow> bool" where
  "in_store w t =
     (properties t < length (colls w) \<and> actions t < length (colls w) \<and>
      events t < length (colls w) \<and> links t < length (arrs w) \<and>
      (\<forall>r \<in> set (arrs w ! links t). r < length (linkobjs w)))"

subsection \<open>A lamp\<close>

text \<open>
  A concrete Thing for the closed instances below: the description of a lamp with one
  property, one action and one event, a store that holds its three collections, two
  sockets, and the file of an earlier icon.
\<close>

definition lamp_profile :: profile where
  "lamp_profile = \<lparr>baseDir = ''/profile'', uploadsDir = ''/profile/uploads''\<rparr>"



definition lamp_links :: "link list" where
  "lamp_links =
     [\<lparr>rel = Some ''properties'', mediaType = None, link_href = Some ''/things/lamp/properties''\<rparr>,
      \<lparr>rel = Some ''actions'', mediaType = None, link_href = Some ''/things/lamp/actions''\<rparr>,
      \<lparr>rel = Some ''events'', mediaType = None, link_href = Some ''/things/lamp/events''\<rparr>,
      \<lparr>rel = Some ''alternate'', mediaType = Some ''text/html'', link_href = Some ''/things/lamp''\<rparr>]"

definition lamp_world :: world where
  "lamp_world =
     \<lparr>colls = [[(''on'', 0)], [(''toggle'', 1)], [(''overheated'', 2)], [(''on'', 0)]],
      descs = [\<lparr>payload = ''boolean'', desc_href = Some ''/things/lamp/properties/on''\<rparr>,
               \<lparr>payload = ''toggle'', desc_href = Some ''/things/lamp/actions/toggle''\<rparr>,
               \<lparr>payload = ''overheated'', desc_href = Some ''/things/lamp/events/overheated''\<rparr>],
      arrs = [[0, 1, 2, 3]], linkobjs = lamp_links,
      sockets = [OPEN, CLOSED], closeRequests = [],
      files = {''/profile/uploads/old.png''},
      console = [], db = [], delivered = []\<rparr>"

definition lamp :: thing where
  "lamp =
     \<lparr>thing_id = ''lamp'', name = ''Lamp'', type = [],
      atContext = ''https://iot.mozilla.org/schemas'', atType = [], description = [],
      href = ''/things/lamp'', properties = 3, actions = 1, events = 2,
      eventsDispatched = [], emitter = [], floorplanX = None, floorplanY = None,
      selectedCapability = None, websockets = [], links = 0,
      iconHref = Some ''/uploads/old.png''\<rparr>"

definition quiet_fs :: fs_env where
  "quiet_fs = \<lparr>unlink_fails = False, tmp_name = Some ''a1b2c3'', write_fails = False\<rparr>"

text \<open>The lamp with its two sockets registered, the open one and the closed one.\<close>

definition wired_lamp :: thing where
  "wired_lamp = registerWebsocket 1 (registerWebsocket 0 lamp)"

text \<open>The lamp with listener 7 registered once and twice, and with listeners 1 and 2.\<close>

definition tapped_lamp :: thing where
  "tapped_lamp = addEventSubscription 7 lamp"

definition twice_tapped_lamp :: thing where
  "twice_tapped_lamp = addEventSubscription 7 (addEventSubscription 7 lamp)"

definition shared_lamp :: thing where
  "shared_lamp = addEventSubscription 2 (addEventSubscription 1 lamp)"



definition overheated :: event where
  "overheated = \<lparr>ev_name = ''overheated'', ev_data = ''102'', thingId = None, timestamp = ''t1''\<rparr>"



text \<open>
  Callbacks that never throw, callbacks of which number 1 always throws, and callbacks of
  which number 2 always throws.
\<close>

definition no_throw :: "listener \<Rightarrow> event \<Rightarrow> bool" where
  "no_throw l e = False"

definition first_throws :: "listener \<Rightarrow> event \<Rightarrow> bool" where
  "first_throws l e = (l = 1)"







section \<open>Properties\<close>

subsection \<open>The store under getDescription\<close>

lemma map_nth_append_upt:
  "map (\<lambda>r. (xs @ ys) ! r) [length xs ..< length xs + length ys] = ys"
  by (rule nth_equalityI) (auto simp: nth_append)

lemma new_links_eq:
  "new_links ls w =
     (w\<lparr>linkobjs := linkobjs w @ ls\<rparr>, [length (linkobjs w) ..< length (linkobjs w) + length ls])"
proof (induction ls arbitrary: w)
  case Nil
  then show ?case by simp
next
  case (Cons l ls)
  have "[n..<n + Suc k] = n # [Suc n..<Suc n + k]" for n k :: nat
    by (subst upt_rec) simp
  then show ?case
    by (simp add: new_link_def Cons.IH)
qed

lemma json_copy_eq:
  "json_copy a w =
     (w\<lparr>linkobjs := linkobjs w @ links_of w a,
        arrs := arrs w @ [[length (linkobjs w) ..< length (linkobjs w) + length (links_of w a)]]\<rparr>,
      length (arrs w))"
  by (simp add: json_copy_def new_links_eq new_arr_def)

lemma getDescription_world:
  "fst (getDescription reqHost reqSecure w t) =
     w\<lparr>linkobjs := linkobjs w @ described_links reqHost reqSecure w t,
       arrs := arrs w @
         [[length (linkobjs w) ..<
           length (linkobjs w) + length (described_links reqHost reqSecure w t)]]\<rparr>"
  by (cases reqHost)
     (simp_all add: getDescription_def json_copy_eq new_link_def push_def described_links_def Let_def)

lemma getDescription_snd:
  "snd (getDescription reqHost reqSecure w t) =
     \<lparr>d_name = Some (name t), d_type = Some (type t), d_context = Some (atContext t),
      d_atType = Some (atType t), d_description = Some (description t), d_href = Some (href t),
      d_properties = Some (properties t), d_actions = Some (actions t), d_events = Some (events t),
      d_links = Some (length (arrs w)), d_uiHref = None,
      d_floorplanX = floorplanX t, d_floorplanY = floorplanY t,
      d_selectedCapability = selectedCapability t, d_iconHref = iconHref t, d_iconData = None, d_others = []\<rparr>"
  by (simp add: getDescription_def json_copy_eq Let_def split: prod.splits)

lemma links_of_getDescription:
  "links_of (fst (getDescription reqHost reqSecure w t)) (length (arrs w)) =
     described_links reqHost reqSecure w t"
proof -
  define ls where "ls = described_links reqHost reqSecure w t"
  have "fst (getDescription reqHost reqSecure w t) =
          w\<lparr>linkobjs := linkobjs w @ ls,
            arrs := arrs w @ [[length (linkobjs w) ..< length (linkobjs w) + length ls]]\<rparr>"
    by (simp add: getDescription_world ls_def)
  then have "links_of (fst (getDescription reqHost reqSecure w t)) (length (arrs w)) =
          map (\<lambda>r. (linkobjs w @ ls) ! r) [length (linkobjs w) ..< length (linkobjs w) + length ls]"
    by (simp add: links_of_def)
  then show ?thesis
    by (simp only: map_nth_append_upt ls_def)
qed

lemma links_of_lamp: "links_of lamp_world (links lamp) = lamp_links"
  by (simp add: links_of_def lamp_world_def lamp_def lamp_links_def)



subsection \<open>Removal\<close>

lemma close_loop_frame:
  "colls (close_loop xs w) = colls w \<and> descs (close_loop xs w) = descs w \<and>
   arrs (close_loop xs w) = arrs w \<and> linkobjs (close_loop xs w) = linkobjs w \<and>
   files (close_loop xs w) = files w \<and> console (close_loop xs w) = console w \<and>
   db (close_loop xs w) = db w \<and> delivered (close_loop xs w) = delivered w"
  by (induction xs arbitrary: w) (simp_all add: ws_close_def)

lemma close_loop_length: "length (sockets (close_loop xs w)) = length (sockets w)"
  by (induction xs arbitrary: w) (simp_all add: ws_close_def)

lemma close_loop_requests:
  "\<exists>new. closeRequests (close_loop xs w) = closeRequests w @ new \<and>
         set new = {x \<in> set xs. sockets w ! x = OPEN \<or> sockets w ! x = CONNECTING}"
proof (induction xs arbitrary: w)
  case Nil
  then show ?case by simp
next
  case (Cons x xs)
  show ?case
  proof (cases "sockets w ! x = OPEN \<or> sockets w ! x = CONNECTING")
    case False
    then show ?thesis using Cons.IH [of w] by auto
  next
    case True
    obtain new where n: "closeRequests (close_loop xs (ws_close x w)) = closeRequests (ws_close x w) @ new"
      and s: "set new = {y \<in> set xs. sockets (ws_close x w) ! y = OPEN \<or> sockets (ws_close x w) ! y = CONNECTING}"
      using Cons.IH [of "ws_close x w"] by blast
    define A where "A y \<longleftrightarrow> sockets w ! y = OPEN \<or> sockets w ! y = CONNECTING" for y
    define B where "B y \<longleftrightarrow> sockets (ws_close x w) ! y = OPEN \<or> sockets (ws_close x w) ! y = CONNECTING" for y
    have other: "y \<noteq> x \<Longrightarrow> B y = A y" for y
      by (simp add: A_def B_def ws_close_def)
    have "A x" using True by (simp add: A_def)
    then have "insert x {y \<in> set xs. B y} = {y \<in> set (x # xs). A y}"
      using other by (auto; metis)
    then have "set (x # new) = {y \<in> set (x # xs). sockets w ! y = OPEN \<or> sockets w ! y = CONNECTING}"
      using s by (simp add: A_def B_def)
    moreover have "closeRequests (close_loop (x # xs) w) = closeRequests w @ (x # new)"
      using True n by (simp add: ws_close_def)
    ultimately show ?thesis by blast
  qed
qed

lemma close_loop_sockets:
  "x < length (sockets w) \<Longrightarrow>
   sockets (close_loop xs w) ! x =
     (if x \<in> set xs \<and> (sockets w ! x = OPEN \<or> sockets w ! x = CONNECTING) then CLOSING
      else sockets w ! x)"
proof (induction xs arbitrary: w)
  case Nil
  then show ?case by simp
next
  case (Cons y xs)
  show ?case
  proof (cases "sockets w ! y = OPEN \<or> sockets w ! y = CONNECTING")
    case False
    then show ?thesis using Cons.IH [of w] Cons.prems by auto
  next
    case True
    have len: "x < length (sockets (ws_close y w))"
      using Cons.prems by (simp add: ws_close_def)
    show ?thesis
      using True Cons.IH [OF len] Cons.prems
      by (cases "x = y") (auto simp: ws_close_def)
  qed
qed

lemma unlink_icon_thing:
  "iconHref t \<noteq> Some [] \<Longrightarrow> snd (unlink_icon up env w t) = t\<lparr>iconHref := None\<rparr>"
  by (simp add: unlink_icon_def split: option.splits)

lemma unlink_icon_world:
  "fst (unlink_icon up env w t) =
     (case iconHref t of
        None \<Rightarrow> w
      | Some h \<Rightarrow>
          if h = [] then w
          else if path_join (baseDir up) h \<in> files w \<and> \<not> unlink_fails env
               then w\<lparr>files := files w - {path_join (baseDir up) h}\<rparr>
               else w\<lparr>console := console w @ [''Failed to remove old icon:'']\<rparr>)"
  by (simp add: unlink_icon_def unlinkSync_def split: option.splits)

lemma remove_lamp:
  "remove lamp_profile quiet_fs lamp_world wired_lamp =
     (lamp_world\<lparr>sockets := [CLOSING, CLOSED], closeRequests := [0], files := {}\<rparr>,
      wired_lamp\<lparr>iconHref := None\<rparr>)"
  by (simp add: remove_def unlink_icon_def unlinkSync_def registerWebsocket_def ws_close_def
        path_join_def lamp_profile_def quiet_fs_def lamp_world_def lamp_def wired_lamp_def)

subsection \<open>Events and listeners\<close>

lemma dispatchEvent_eq:
  "dispatchEvent raises e w t =
     (w\<lparr>delivered := delivered w @ fst (emit raises (emitter t) (stamped t e))\<rparr>,
      t\<lparr>eventsDispatched := eventsDispatched t @ [stamped t e]\<rparr>,
      if snd (emit raises (emitter t) (stamped t e)) then Threw else Returned)"
  by (simp add: dispatchEvent_def stamped_def Let_def split: prod.splits)

lemma run_Cons: "run up raises (op # ops) s = run up raises ops (step up raises op s)"
  by (simp add: run_def)


subsection \<open>The branches of setIcon, and what the methods leave alone\<close>

lemma setIcon_rejected:
  "\<not> valid_icon icon \<Longrightarrow>
   setIcon up env icon u w t = (w\<lparr>console := console w @ [''Invalid icon data:'']\<rparr>, t, Undefined)"
  by (simp add: setIcon_def valid_icon_def)

lemma setIcon_not_created:
  assumes "valid_icon icon" and "unlink_icon up env w t = (w1, t1)"
    and "tmp_fileSync env (uploadsDir up) (extension_of icon) (files w1) = Inl e"
  shows "setIcon up env icon u w t =
           (w1\<lparr>console := console w1 @ [''Failed to write icon:'']\<rparr>, t1, Undefined)"
  using assms by (simp add: setIcon_def valid_icon_def extension_of_def)

lemma setIcon_not_written:
  assumes "valid_icon icon" and "unlink_icon up env w t = (w1, t1)"
    and "tmp_fileSync env (uploadsDir up) (extension_of icon) (files w1) = Inr (fs2, nm)"
    and "write_fails env"
  shows "setIcon up env icon u w t =
           (w1\<lparr>files := fs2, console := console w1 @ [''Failed to write icon:'']\<rparr>, t1, Undefined)"
  using assms by (simp add: setIcon_def valid_icon_def extension_of_def unlinkSync_fd_def)

lemma setIcon_installed:
  assumes "valid_icon icon" and "unlink_icon up env w t = (w1, t1)"
    and "tmp_fileSync env (uploadsDir up) (extension_of icon) (files w1) = Inr (fs2, nm)"
    and "\<not> write_fails env"
  shows "setIcon up env icon u w t =
           (if u
            then (fst (persist (w1\<lparr>files := fs2\<rparr>)
                        (t1\<lparr>iconHref := Some (path_join ''/uploads'' (basename nm))\<rparr>)),
                  t1\<lparr>iconHref := Some (path_join ''/uploads'' (basename nm))\<rparr>, Promise)
            else (w1\<lparr>files := fs2\<rparr>,
                  t1\<lparr>iconHref := Some (path_join ''/uploads'' (basename nm))\<rparr>, Undefined))"
  using assms
  by (simp add: setIcon_def valid_icon_def extension_of_def Let_def persist_def case_prod_beta)


lemma unlink_icon_thing_ex: "\<exists>h. snd (unlink_icon up env w t) = t\<lparr>iconHref := h\<rparr>"
proof (cases "iconHref t")
  case None
  then have "snd (unlink_icon up env w t) = t\<lparr>iconHref := None\<rparr>"
    by (simp add: unlink_icon_def)
  then show ?thesis by blast
next
  case (Some h)
  show ?thesis
  proof (cases "h = []")
    case True
    then have "snd (unlink_icon up env w t) = t\<lparr>iconHref := Some []\<rparr>"
      using Some by (simp add: unlink_icon_def)
    then show ?thesis by blast
  next
    case False
    then have "snd (unlink_icon up env w t) = t\<lparr>iconHref := None\<rparr>"
      using Some by (simp add: unlink_icon_def)
    then show ?thesis by blast
  qed
qed

lemma setIcon_thing_ex: "\<exists>h. fst (snd (setIcon up env icon u w t)) = t\<lparr>iconHref := h\<rparr>"
proof (cases "valid_icon icon")
  case False
  have "t = t\<lparr>iconHref := iconHref t\<rparr>" by simp
  then show ?thesis
    using setIcon_rejected [OF False, of up env u w t] by (metis fst_conv snd_conv)
next
  case True
  obtain w1 t1 where u1: "unlink_icon up env w t = (w1, t1)"
    by (cases "unlink_icon up env w t")
  obtain h1 where t1: "t1 = t\<lparr>iconHref := h1\<rparr>"
    using unlink_icon_thing_ex [of up env w t] by (auto simp: u1)
  show ?thesis
  proof (cases "tmp_fileSync env (uploadsDir up) (extension_of icon) (files w1)")
    case (Inl e)
    show ?thesis
      using setIcon_not_created [OF True u1 Inl, of u] t1 by auto
  next
    case (Inr p)
    obtain fs2 nm where p: "p = (fs2, nm)" by (cases p)
    show ?thesis
    proof (cases "write_fails env")
      case True
      show ?thesis
        using setIcon_not_written [OF \<open>valid_icon icon\<close> u1 Inr [unfolded p] True, of u] t1 by auto
    next
      case False
      have "fst (snd (setIcon up env icon u w t)) =
              t1\<lparr>iconHref := Some (path_join ''/uploads'' (basename nm))\<rparr>"
        using setIcon_installed [OF \<open>valid_icon icon\<close> u1 Inr [unfolded p] False, of u] by simp
      then show ?thesis using t1 by auto
    qed
  qed
qed

lemma remove_thing_ex: "\<exists>h. snd (remove up env w t) = t\<lparr>iconHref := h\<rparr>"
  using unlink_icon_thing_ex [of up env w t] by (simp add: remove_def case_prod_beta)

lemma emit_calls: "c \<in> set (fst (emit raises ls e)) \<Longrightarrow> snd c = e"
  by (induction ls) (auto split: if_splits prod.splits)

lemma persist_eq: "persist w t = (updateThing (thing_id t) (snd (getDescription None False w t))
     (fst (getDescription None False w t)), Promise)"
  by (simp add: persist_def split: prod.splits)

lemma step_log:
  "eventsDispatched (snd (step up raises op (w, t))) =
     eventsDispatched t @ (case op of DispatchEvent e \<Rightarrow> [stamped t e] | _ \<Rightarrow> [])"
proof (cases op)
  case (SetIcon env icon u)
  obtain h where "fst (snd (setIcon up env icon u w t)) = t\<lparr>iconHref := h\<rparr>"
    using setIcon_thing_ex by blast
  then show ?thesis by (simp add: SetIcon case_prod_beta)
next
  case (Remove env)
  obtain h where "snd (remove up env w t) = t\<lparr>iconHref := h\<rparr>"
    using remove_thing_ex by blast
  then show ?thesis by (simp add: Remove)
qed (simp_all add: setCoordinates_def setName_def setSelectedCapability_def persist_eq
       dispatchEvent_eq addEventSubscription_def removeEventSubscription_def registerWebsocket_def
       Let_def)

lemma run_log: "prefix (eventsDispatched t) (eventsDispatched (snd (run up raises ops (w, t))))"
proof (induction ops arbitrary: w t)
  case Nil
  then show ?case by (simp add: run_def)
next
  case (Cons op ops)
  obtain w1 t1 where s: "step up raises op (w, t) = (w1, t1)" by (cases "step up raises op (w, t)")
  have "prefix (eventsDispatched t) (eventsDispatched t1)"
    using step_log [of up raises op w t] by (simp add: s)
  moreover have "prefix (eventsDispatched t1) (eventsDispatched (snd (run up raises ops (w1, t1))))"
    by (rule Cons.IH)
  ultimately show ?case
    by (simp add: run_Cons s)
qed









lemma tapped_emitters:
  "emitter tapped_lamp = [7]" "emitter twice_tapped_lamp = [7, 7]" "emitter shared_lamp = [1, 2]"
  "thing_id tapped_lamp = ''lamp''" "thing_id twice_tapped_lamp = ''lamp''"
  "thing_id shared_lamp = ''lamp''"
  by (simp_all add: tapped_lamp_def twice_tapped_lamp_def shared_lamp_def addEventSubscription_def lamp_def)

lemma stamped_overheated:
  "thing_id t = ''lamp'' \<Longrightarrow> stamped t overheated = overheated\<lparr>thingId := Some ''lamp''\<rparr>"
  by (simp add: stamped_def falsy_def overheated_def)

lemma delivered_lamp_world: "delivered lamp_world = []"
  by (simp add: lamp_world_def)


lemma dispatch_shared:
  "dispatchEvent first_throws overheated lamp_world shared_lamp =
     (lamp_world\<lparr>delivered := [(1, overheated\<lparr>thingId := Some ''lamp''\<rparr>)]\<rparr>,
      shared_lamp\<lparr>eventsDispatched :=
        eventsDispatched shared_lamp @ [overheated\<lparr>thingId := Some ''lamp''\<rparr>]\<rparr>,
      Threw)"
  by (simp add: dispatchEvent_eq tapped_emitters stamped_overheated first_throws_def delivered_lamp_world)

subsection \<open>The loops of the constructor, and the store under setIcon\<close>

lemma href_loop_frame:
  "colls (href_loop b xs w) = colls w \<and> arrs (href_loop b xs w) = arrs w \<and>
   linkobjs (href_loop b xs w) = linkobjs w \<and> sockets (href_loop b xs w) = sockets w \<and>
   closeRequests (href_loop b xs w) = closeRequests w \<and> files (href_loop b xs w) = files w \<and>
   console (href_loop b xs w) = console w \<and> db (href_loop b xs w) = db w \<and>
   delivered (href_loop b xs w) = delivered w"
  by (induction b xs w rule: href_loop.induct) (simp_all add: set_href_def)

lemma href_loop_descs: "descs (href_loop b xs w) = hrefs b xs (descs w)"
  by (induction b xs w rule: href_loop.induct) (simp_all add: set_href_def)




lemma properties_loop_frame:
  "arrs (properties_loop tid p xs w) = arrs w \<and>
   linkobjs (properties_loop tid p xs w) = linkobjs w \<and> sockets (properties_loop tid p xs w) = sockets w \<and>
   closeRequests (properties_loop tid p xs w) = closeRequests w \<and> files (properties_loop tid p xs w) = files w \<and>
   console (properties_loop tid p xs w) = console w \<and> db (properties_loop tid p xs w) = db w \<and>
   delivered (properties_loop tid p xs w) = delivered w"
  by (induction tid p xs w rule: properties_loop.induct) (simp_all add: set_href_def put_member_def)


lemma properties_loop_colls:
  "colls (properties_loop tid p xs w) =
     (colls w)[p := fold (\<lambda>(k, v). AList.update k v) xs (colls w ! p)]"
proof (induction xs arbitrary: w)
  case Nil
  then show ?case by simp
next
  case (Cons x xs)
  obtain k v where x: "x = (k, v)" by (cases x)
  define w' where "w' = put_member p k v
      (set_href v (THINGS_PATH @ ''/'' @ tid @ PROPERTIES_PATH @ ''/'' @ k) w)"
  have c: "colls w' = (colls w)[p := AList.update k v (colls w ! p)]"
    by (simp add: w'_def put_member_def set_href_def)
  have "colls (properties_loop tid p (x # xs) w) = colls (properties_loop tid p xs w')"
    by (simp add: x w'_def)
  also have "\<dots> = (colls w')[p := fold (\<lambda>(k, v). AList.update k v) xs (colls w' ! p)]"
    by (rule Cons.IH)
  also have "\<dots> = (colls w)[p := fold (\<lambda>(k, v). AList.update k v) (x # xs) (colls w ! p)]"
    by (cases "p < length (colls w)") (simp_all add: c x list_update_beyond)
  finally show ?case .
qed


lemma unlink_icon_store:
  "colls (fst (unlink_icon up env w t)) = colls w \<and> descs (fst (unlink_icon up env w t)) = descs w \<and>
   arrs (fst (unlink_icon up env w t)) = arrs w \<and> linkobjs (fst (unlink_icon up env w t)) = linkobjs w"
  by (simp add: unlink_icon_world split: option.splits)

lemma persist_store:
  "colls (fst (persist w t)) = colls w \<and> descs (fst (persist w t)) = descs w"
  by (simp add: persist_eq updateThing_def getDescription_world)

lemma setIcon_store:
  "colls (fst (setIcon up env icon u w t)) = colls w \<and> descs (fst (setIcon up env icon u w t)) = descs w \<and>
   (\<not> u \<longrightarrow> arrs (fst (setIcon up env icon u w t)) = arrs w \<and>
            linkobjs (fst (setIcon up env icon u w t)) = linkobjs w)"
proof (cases "valid_icon icon")
  case False
  then show ?thesis by (simp add: setIcon_rejected)
next
  case True
  obtain w1 t1 where u1: "unlink_icon up env w t = (w1, t1)"
    by (cases "unlink_icon up env w t")
  have d1: "colls w1 = colls w" "descs w1 = descs w" "arrs w1 = arrs w" "linkobjs w1 = linkobjs w"
    using unlink_icon_store [of up env w t] by (simp_all add: u1)
  show ?thesis
  proof (cases "tmp_fileSync env (uploadsDir up) (extension_of icon) (files w1)")
    case (Inl e)
    show ?thesis
      by (simp add: setIcon_not_created [OF True u1 Inl] d1)
  next
    case (Inr p)
    obtain fs2 nm where p: "p = (fs2, nm)" by (cases p)
    show ?thesis
    proof (cases "write_fails env")
      case True
      show ?thesis
        by (simp add: setIcon_not_written [OF \<open>valid_icon icon\<close> u1 Inr [unfolded p] True] d1)
    next
      case False
      show ?thesis
        by (simp add: setIcon_installed [OF \<open>valid_icon icon\<close> u1 Inr [unfolded p] False]
              persist_store d1)
    qed
  qed
qed

subsection \<open>Paths and the outcomes of setIcon\<close>



lemma path_join_absolute: "path_join a (CHR ''/'' # b) = a @ CHR ''/'' # b"
  by (simp add: path_join_def)


lemma persist_files: "files (fst (persist w t)) = files w"
  by (simp add: persist_eq updateThing_def getDescription_world)


lemma tmp_fileSync_cases:
  "tmp_fileSync env dir ext fs =
     (case tmp_name env of
        None \<Rightarrow> Inl IOError
      | Some x \<Rightarrow> if path_join dir (x @ ext) \<in> fs then Inl IOError
                  else Inr (insert (path_join dir (x @ ext)) fs, path_join dir (x @ ext)))"
  by (simp add: tmp_fileSync_def Let_def split: option.splits)


text \<open>What a call with valid icon data comes to: one of three outcomes.\<close>

lemma setIcon_valid:
  assumes v: "valid_icon icon" and ne: "iconHref t \<noteq> Some []"
    and res: "setIcon up env icon u w t = (w', t', r)"
  shows "(iconHref t' = None \<and> files w' = files (fst (unlink_icon up env w t)) \<and>
            (tmp_name env = None \<or>
             (\<exists>x. tmp_name env = Some x \<and>
                  path_join (uploadsDir up) (x @ extension_of icon) \<in> files (fst (unlink_icon up env w t))))) \<or>
         (\<exists>x. tmp_name env = Some x \<and> write_fails env \<and> iconHref t' = None \<and>
              path_join (uploadsDir up) (x @ extension_of icon) \<notin> files (fst (unlink_icon up env w t)) \<and>
              files w' = insert (path_join (uploadsDir up) (x @ extension_of icon))
                           (files (fst (unlink_icon up env w t)))) \<or>
         (\<exists>x. tmp_name env = Some x \<and> \<not> write_fails env \<and>
              path_join (uploadsDir up) (x @ extension_of icon) \<notin> files (fst (unlink_icon up env w t)) \<and>
              iconHref t' =
                Some (path_join ''/uploads'' (basename (path_join (uploadsDir up) (x @ extension_of icon)))) \<and>
              files w' = insert (path_join (uploadsDir up) (x @ extension_of icon))
                           (files (fst (unlink_icon up env w t))))"
proof -
  obtain w1 t1 where u1: "unlink_icon up env w t = (w1, t1)"
    by (cases "unlink_icon up env w t")
  have t1: "t1 = t\<lparr>iconHref := None\<rparr>"
    using unlink_icon_thing [OF ne, of up env w] by (simp add: u1)
  have w1: "fst (unlink_icon up env w t) = w1" by (simp add: u1)
  show ?thesis
  proof (cases "tmp_fileSync env (uploadsDir up) (extension_of icon) (files w1)")
    case (Inl e)
    have "tmp_name env = None \<or>
          (\<exists>x. tmp_name env = Some x \<and> path_join (uploadsDir up) (x @ extension_of icon) \<in> files w1)"
      using Inl by (auto simp: tmp_fileSync_cases split: option.splits if_splits)
    moreover have "iconHref t' = None \<and> files w' = files w1"
      using setIcon_not_created [OF v u1 Inl, of u] res by (auto simp: t1)
    ultimately show ?thesis unfolding w1 by blast
  next
    case (Inr p)
    obtain fs2 nm where p: "p = (fs2, nm)" by (cases p)
    obtain x where x: "tmp_name env = Some x"
      and nm: "nm = path_join (uploadsDir up) (x @ extension_of icon)"
      and fs2: "fs2 = insert nm (files w1)" and fresh: "nm \<notin> files w1"
      using Inr by (auto simp: p tmp_fileSync_cases split: option.splits if_splits)
    show ?thesis
    proof (cases "write_fails env")
      case True
      have "iconHref t' = None \<and> files w' = insert nm (files w1)"
        using setIcon_not_written [OF v u1 Inr [unfolded p] True, of u] res by (auto simp: t1 fs2)
      then show ?thesis unfolding w1 using x True nm fresh by blast
    next
      case False
      have "iconHref t' = Some (path_join ''/uploads'' (basename nm)) \<and> files w' = insert nm (files w1)"
        using setIcon_installed [OF v u1 Inr [unfolded p] False, of u] res
        by (cases u) (auto simp: t1 fs2 persist_files)
      then show ?thesis unfolding w1 using x False nm fresh by blast
    qed
  qed
qed




subsection \<open>The icon reference is never the empty string\<close>

lemma path_join_nonempty: "a \<noteq> [] \<Longrightarrow> path_join a b \<noteq> []"
  by (simp add: path_join_def split: list.splits)

lemma setIcon_iconHref_nonempty:
  assumes "iconHref t \<noteq> Some []"
  shows "iconHref (fst (snd (setIcon up env icon u w t))) \<noteq> Some []"
proof (cases "valid_icon icon")
  case False
  then show ?thesis using assms by (simp add: setIcon_rejected)
next
  case True
  obtain w' t' r where res: "setIcon up env icon u w t = (w', t', r)"
    by (cases "setIcon up env icon u w t")
  have "iconHref t' \<noteq> Some []"
    using setIcon_valid [OF True assms res] path_join_nonempty [of "''/uploads''"] by auto
  then show ?thesis by (simp add: res)
qed

lemma step_iconHref_nonempty:
  assumes "iconHref t \<noteq> Some []"
  shows "iconHref (snd (step up raises op (w, t))) \<noteq> Some []"
proof (cases op)
  case (SetIcon env icon u)
  show ?thesis
    using setIcon_iconHref_nonempty [OF assms, of up env icon u w]
    by (simp add: SetIcon case_prod_beta)
next
  case (Remove env)
  show ?thesis
    using unlink_icon_thing [OF assms, of up env w]
    by (simp add: Remove remove_def case_prod_beta)
qed (use assms in \<open>simp_all add: setCoordinates_def setName_def setSelectedCapability_def persist_eq
       dispatchEvent_eq addEventSubscription_def removeEventSubscription_def registerWebsocket_def
       Let_def\<close>)

lemma run_iconHref_nonempty:
  "iconHref t \<noteq> Some [] \<Longrightarrow> iconHref (snd (run up raises ops (w, t))) \<noteq> Some []"
proof (induction ops arbitrary: w t)
  case Nil
  then show ?case by (simp add: run_def)
next
  case (Cons op ops)
  obtain w1 t1 where s: "step up raises op (w, t) = (w1, t1)"
    by (cases "step up raises op (w, t)")
  have "iconHref t1 \<noteq> Some []"
    using step_iconHref_nonempty [OF Cons.prems, of up raises op w] by (simp add: s)
  from Cons.IH [OF this, of w1]
  show ?case by (simp add: run_Cons s)
qed

subsection \<open>The result of the constructor\<close>

lemma properties_loop_length: "length (colls (properties_loop tid p xs w)) = length (colls w)"
  by (simp add: properties_loop_colls)



lemma prepare_refs:
  "snd (prepare tid d w) =
     (length (colls w),
      (case d_actions d of Some a \<Rightarrow> a | None \<Rightarrow> Suc (length (colls w))),
      (case d_events d of
         Some e \<Rightarrow> e
       | None \<Rightarrow> (case d_actions d of
                    Some a \<Rightarrow> Suc (length (colls w))
                  | None \<Rightarrow> Suc (Suc (length (colls w))))),
      length (arrs w),
      length (linkobjs w) + 3)"
  by (cases "d_actions d"; cases "d_events d"; cases "d_properties d")
     (simp_all add: prepare_def new_coll_def new_link_def new_arr_def Let_def properties_loop_frame)

lemma prepare_links:
  "arrs (fst (prepare tid d w)) =
     arrs w @ [[length (linkobjs w), Suc (length (linkobjs w)), Suc (Suc (length (linkobjs w)))]] \<and>
   linkobjs (fst (prepare tid d w)) =
     linkobjs w @
     [\<lparr>rel = Some ''properties'', mediaType = None, link_href = Some (THINGS_PATH @ ''/'' @ tid @ ''/properties'')\<rparr>,
      \<lparr>rel = Some ''actions'', mediaType = None, link_href = Some (THINGS_PATH @ ''/'' @ tid @ ''/actions'')\<rparr>,
      \<lparr>rel = Some ''events'', mediaType = None, link_href = Some (THINGS_PATH @ ''/'' @ tid @ ''/events'')\<rparr>,
      \<lparr>rel = Some ''alternate'', mediaType = Some ''text/html'', link_href = Some (THINGS_PATH @ ''/'' @ tid)\<rparr>]"
  by (cases "d_actions d"; cases "d_events d"; cases "d_properties d")
     (simp_all add: prepare_def new_coll_def new_link_def new_arr_def Let_def properties_loop_frame)

lemma prepare_frame:
  "sockets (fst (prepare tid d w)) = sockets w \<and> closeRequests (fst (prepare tid d w)) = closeRequests w \<and>
   files (fst (prepare tid d w)) = files w \<and> console (fst (prepare tid d w)) = console w \<and>
   db (fst (prepare tid d w)) = db w \<and> delivered (fst (prepare tid d w)) = delivered w"
  by (cases "d_actions d"; cases "d_events d"; cases "d_properties d")
     (simp_all add: prepare_def new_coll_def new_link_def new_arr_def Let_def properties_loop_frame)



lemma prepare_length:
  "length (colls (fst (prepare tid d w))) =
     length (colls w) + 1 + (if d_actions d = None then 1 else 0) + (if d_events d = None then 1 else 0)"
  by (cases "d_actions d"; cases "d_events d"; cases "d_properties d")
     (simp_all add: prepare_def new_coll_def new_link_def new_arr_def Let_def
        properties_loop_frame properties_loop_length)



lemma assemble_thing:
  assumes "assemble tid d w = (w', Inr t)"
  shows "t =
     \<lparr>thing_id = tid,
      name = or_else (d_name d) [],
      type = or_else (d_type d) [],
      atContext = or_else (d_context d) ''https://iot.mozilla.org/schemas'',
      atType = (case d_atType d of None \<Rightarrow> [] | Some ts \<Rightarrow> ts),
      description = or_else (d_description d) [],
      href = THINGS_PATH @ ''/'' @ tid,
      properties = length (colls w),
      actions = fst (snd (snd (prepare tid d w))),
      events = fst (snd (snd (snd (prepare tid d w)))),
      eventsDispatched = [],
      emitter = [],
      floorplanX = d_floorplanX d,
      floorplanY = d_floorplanY d,
      selectedCapability = d_selectedCapability d,
      websockets = [],
      links = length (arrs w),
      iconHref = None\<rparr>"
  using assms
  by (auto simp: assemble_def case_prod_beta Let_def prepare_refs split: sum.splits)

lemma assemble_world:
  assumes "assemble tid d w = (w', Inr t)"
  shows "colls w' = colls (fst (prepare tid d w))"
    and "descs w' =
           hrefs (THINGS_PATH @ ''/'' @ tid @ ''/events'') (colls (fst (prepare tid d w)) ! events t)
             (hrefs (THINGS_PATH @ ''/'' @ tid @ ''/actions'') (colls (fst (prepare tid d w)) ! actions t)
                (descs (fst (prepare tid d w))))"
    and "\<exists>u. arrs w' =
               arrs w @ [[length (linkobjs w), Suc (length (linkobjs w)), Suc (Suc (length (linkobjs w))),
                          Suc (Suc (Suc (length (linkobjs w))))]] \<and>
             linkobjs w' =
               linkobjs w @
               [\<lparr>rel = Some ''properties'', mediaType = None,
                 link_href = Some (THINGS_PATH @ ''/'' @ tid @ ''/properties'')\<rparr>,
                \<lparr>rel = Some ''actions'', mediaType = None,
                 link_href = Some (THINGS_PATH @ ''/'' @ tid @ ''/actions'')\<rparr>,
                \<lparr>rel = Some ''events'', mediaType = None,
                 link_href = Some (THINGS_PATH @ ''/'' @ tid @ ''/events'')\<rparr>,
                \<lparr>rel = Some ''alternate'', mediaType = Some ''text/html'', link_href = Some u\<rparr>]"
proof -
  obtain target where u: "ui_href (fst (prepare tid d w)) d = Inr target"
    using assms by (auto simp: assemble_def case_prod_beta Let_def split: sum.splits)
  show "colls w' = colls (fst (prepare tid d w))"
    using assms u
    by (cases target) (auto simp: assemble_def case_prod_beta Let_def href_loop_frame push_def put_link_def)
  show "descs w' =
           hrefs (THINGS_PATH @ ''/'' @ tid @ ''/events'') (colls (fst (prepare tid d w)) ! events t)
             (hrefs (THINGS_PATH @ ''/'' @ tid @ ''/actions'') (colls (fst (prepare tid d w)) ! actions t)
                (descs (fst (prepare tid d w))))"
    using assms u
    by (cases target)
       (auto simp: assemble_def case_prod_beta Let_def href_loop_frame href_loop_descs push_def put_link_def)
  show "\<exists>u. arrs w' =
               arrs w @ [[length (linkobjs w), Suc (length (linkobjs w)), Suc (Suc (length (linkobjs w))),
                          Suc (Suc (Suc (length (linkobjs w))))]] \<and>
             linkobjs w' =
               linkobjs w @
               [\<lparr>rel = Some ''properties'', mediaType = None,
                 link_href = Some (THINGS_PATH @ ''/'' @ tid @ ''/properties'')\<rparr>,
                \<lparr>rel = Some ''actions'', mediaType = None,
                 link_href = Some (THINGS_PATH @ ''/'' @ tid @ ''/actions'')\<rparr>,
                \<lparr>rel = Some ''events'', mediaType = None,
                 link_href = Some (THINGS_PATH @ ''/'' @ tid @ ''/events'')\<rparr>,
                \<lparr>rel = Some ''alternate'', mediaType = Some ''text/html'', link_href = Some u\<rparr>]"
    using assms u
    by (cases target)
       (auto simp: assemble_def case_prod_beta Let_def href_loop_frame push_def put_link_def
          prepare_refs prepare_links nth_append list_update_append)
qed



lemma assemble_links:
  assumes "assemble tid d w = (w', Inr t)"
  shows "\<exists>u. links_of w' (links t) =
     [\<lparr>rel = Some ''properties'', mediaType = None,
       link_href = Some (THINGS_PATH @ ''/'' @ tid @ ''/properties'')\<rparr>,
      \<lparr>rel = Some ''actions'', mediaType = None,
       link_href = Some (THINGS_PATH @ ''/'' @ tid @ ''/actions'')\<rparr>,
      \<lparr>rel = Some ''events'', mediaType = None,
       link_href = Some (THINGS_PATH @ ''/'' @ tid @ ''/events'')\<rparr>,
      \<lparr>rel = Some ''alternate'', mediaType = Some ''text/html'', link_href = Some u\<rparr>]"
  using assemble_world(3) [OF assms]
  by (auto simp: links_of_def assemble_thing [OF assms] nth_append)

lemma assemble_in_store:
  assumes "\<forall>c \<in> set_option (d_properties d) \<union> set_option (d_actions d) \<union> set_option (d_events d).
             c < length (colls w)"
    and "assemble tid d w = (w', Inr t)"
  shows "in_store w' t"
  using assms(1) assemble_world(1,3) [OF assms(2)] prepare_length [of tid d w]
  by (cases "d_actions d"; cases "d_events d")
     (auto simp: in_store_def assemble_thing [OF assms(2)] prepare_refs nth_append)

text \<open>The end of the constructor changes the icon reference and the files only.\<close>

lemma construct_cases:
  assumes "construct up env tid d w = (w', Inr t)"
  shows "\<exists>w12 t12 h. assemble tid d w = (w12, Inr t12) \<and> t = t12\<lparr>iconHref := h\<rparr> \<and> h \<noteq> Some [] \<and>
           colls w' = colls w12 \<and> descs w' = descs w12 \<and> arrs w' = arrs w12 \<and>
           linkobjs w' = linkobjs w12"
proof -
  obtain w12 r where a: "assemble tid d w = (w12, r)" by (cases "assemble tid d w")
  obtain t12 where r: "r = Inr t12"
    using assms a by (cases r) (simp_all add: construct_def)
  have n: "iconHref t12 = None"
    using assemble_thing [OF a [unfolded r]] by simp
  show ?thesis
  proof (cases "falsy (d_iconHref d)")
    case False
    then have "w' = w12" "t = t12\<lparr>iconHref := d_iconHref d\<rparr>" "d_iconHref d \<noteq> Some []"
      using assms by (auto simp: construct_def a r falsy_def)
    then show ?thesis using a r by blast
  next
    case True
    show ?thesis
    proof (cases "d_iconData d")
      case None
      then have "w' = w12" "t = t12"
        using assms True by (simp_all add: construct_def a r)
      moreover have "t12 = t12\<lparr>iconHref := None\<rparr>" using n by simp
      ultimately show ?thesis using a r by (metis option.distinct(1))
    next
      case (Some icon)
      have w': "w' = fst (setIcon up env icon False w12 t12)"
        and t: "t = fst (snd (setIcon up env icon False w12 t12))"
        using assms True Some by (simp_all add: construct_def a r case_prod_beta)
      obtain h where h: "t = t12\<lparr>iconHref := h\<rparr>"
        using setIcon_thing_ex [of up env icon False w12 t12] t by auto
      have "iconHref t \<noteq> Some []"
        unfolding t using n by (intro setIcon_iconHref_nonempty) simp
      then have "h \<noteq> Some []" using h by simp
      then show ?thesis
        using a r h setIcon_store [of up env icon False w12 t12] by (auto simp: w')
    qed
  qed
qed




lemma Thing_invalid:
  "falsy tid \<or> desc = None \<Longrightarrow> Thing up env tid desc w =
     (w\<lparr>console := console w @ [''id and description needed to create new Thing'']\<rparr>,
      Inr NoFields)"
  by (cases tid; cases desc) (auto simp: Thing_def falsy_def)

lemma Thing_Fields:
  assumes "Thing up env tid desc w = (w', Inr (Fields t))"
  shows "\<exists>i d. tid = Some i \<and> i \<noteq> [] \<and> desc = Some d \<and> construct up env i d w = (w', Inr t)"
proof -
  have "\<not> (falsy tid \<or> desc = None)"
    using assms Thing_invalid [of tid desc up env w] by auto
  then obtain i d where i: "tid = Some i" "i \<noteq> []" and d: "desc = Some d"
    by (cases tid; cases desc) (auto simp: falsy_def)
  have "construct up env i d w = (w', Inr t)"
    using assms by (auto simp: Thing_def i d falsy_def split: prod.splits sum.splits)
  then show ?thesis using i d by blast
qed


lemma construct_links:
  assumes "construct up env tid d w = (w', Inr t)"
  shows "\<exists>u. links_of w' (links t) =
     [\<lparr>rel = Some ''properties'', mediaType = None,
       link_href = Some (THINGS_PATH @ ''/'' @ tid @ ''/properties'')\<rparr>,
      \<lparr>rel = Some ''actions'', mediaType = None,
       link_href = Some (THINGS_PATH @ ''/'' @ tid @ ''/actions'')\<rparr>,
      \<lparr>rel = Some ''events'', mediaType = None,
       link_href = Some (THINGS_PATH @ ''/'' @ tid @ ''/events'')\<rparr>,
      \<lparr>rel = Some ''alternate'', mediaType = Some ''text/html'', link_href = Some u\<rparr>]"
proof -
  obtain w12 t12 h where a: "assemble tid d w = (w12, Inr t12)" and t: "t = t12\<lparr>iconHref := h\<rparr>"
    and s: "arrs w' = arrs w12" "linkobjs w' = linkobjs w12"
    using construct_cases [OF assms] by blast
  have "links_of w' (links t) = links_of w12 (links t12)"
    by (simp add: links_of_def s t)
  then show ?thesis using assemble_links [OF a] by simp
qed

lemma construct_in_store:
  assumes "\<forall>c \<in> set_option (d_properties d) \<union> set_option (d_actions d) \<union> set_option (d_events d).
             c < length (colls w)"
    and "construct up env tid d w = (w', Inr t)"
  shows "in_store w' t"
proof -
  obtain w12 t12 h where a: "assemble tid d w = (w12, Inr t12)" and t: "t = t12\<lparr>iconHref := h\<rparr>"
    and s: "colls w' = colls w12" "arrs w' = arrs w12" "linkobjs w' = linkobjs w12"
    using construct_cases [OF assms(2)] by blast
  show ?thesis
    using assemble_in_store [OF assms(1) a] by (simp add: in_store_def s t)
qed

text \<open>Every Thing the constructor has built, whatever was called on it since.\<close>

lemma Thing_iconHref_nonempty:
  assumes "Thing up env tid desc w0 = (w, Inr (Fields t))"
  shows "iconHref (snd (run up' raises ops (w, t))) \<noteq> Some []"
proof -
  obtain i d where "construct up env i d w0 = (w, Inr t)"
    using Thing_Fields [OF assms] by blast
  then have "iconHref t \<noteq> Some []"
    using construct_cases [of up env i d w0 w t] by auto
  then show ?thesis by (rule run_iconHref_nonempty)
qed





subsection \<open>A listener registered once\<close>






















subsection \<open>The claims of the specification\<close>













text \<open>
  C5. \<open>dispatchEvent\<close> logs the event with \<^verbatim>\<open>thingId\<close> set to the Thing's id exactly
  when the event had none (undefined or empty), and unchanged otherwise; the event goes to
  the end of the log, also when a listener throws, and it is this logged event that the
  listeners are called with. No later sequence of method calls removes or reorders an
  entry: the log after it starts with the log before it.
\<close>

theorem dispatchEvent_appends:
  assumes "dispatchEvent raises e w t = (w', t', r)"
  shows "eventsDispatched t' =
           eventsDispatched t @
           [if thingId e = None \<or> thingId e = Some [] then e\<lparr>thingId := Some (thing_id t)\<rparr> else e] \<and>
         (\<exists>calls. delivered w' = delivered w @ calls \<and>
                  (\<forall>c \<in> set calls. snd c = last (eventsDispatched t'))) \<and>
         prefix (eventsDispatched t') (eventsDispatched (snd (run up raises' ops (w', t'))))"
proof -
  have s: "stamped t e =
             (if thingId e = None \<or> thingId e = Some [] then e\<lparr>thingId := Some (thing_id t)\<rparr> else e)"
    by (simp add: stamped_def falsy_def split: option.splits)
  have t': "t' = t\<lparr>eventsDispatched := eventsDispatched t @ [stamped t e]\<rparr>"
    and w': "w' = w\<lparr>delivered := delivered w @ fst (emit raises (emitter t) (stamped t e))\<rparr>"
    using assms by (simp_all add: dispatchEvent_eq)
  have "\<forall>c \<in> set (fst (emit raises (emitter t) (stamped t e))). snd c = last (eventsDispatched t')"
    using emit_calls [of _ raises "emitter t" "stamped t e"] by (simp add: t')
  then have "\<exists>calls. delivered w' = delivered w @ calls \<and>
                  (\<forall>c \<in> set calls. snd c = last (eventsDispatched t'))"
    using w' by simp
  moreover have "eventsDispatched t' =
           eventsDispatched t @
           [if thingId e = None \<or> thingId e = Some [] then e\<lparr>thingId := Some (thing_id t)\<rparr> else e]"
    using s by (simp add: t')
  ultimately show ?thesis
    using run_log [of t' up raises' ops w'] by blast
qed

theorem dispatchEvent_appends_witness:
  "dispatchEvent first_throws overheated lamp_world shared_lamp =
     (lamp_world\<lparr>delivered := [(1, overheated\<lparr>thingId := Some ''lamp''\<rparr>)]\<rparr>,
      shared_lamp\<lparr>eventsDispatched :=
        eventsDispatched shared_lamp @ [overheated\<lparr>thingId := Some ''lamp''\<rparr>]\<rparr>,
      Threw) \<and>
   eventsDispatched (shared_lamp\<lparr>eventsDispatched :=
        eventsDispatched shared_lamp @ [overheated\<lparr>thingId := Some ''lamp''\<rparr>]\<rparr>) =
     [overheated\<lparr>thingId := Some ''lamp''\<rparr>]"
proof -
  have e: "eventsDispatched shared_lamp = []"
    by (simp add: shared_lamp_def addEventSubscription_def lamp_def)
  have i: "thingId overheated = None" "thing_id shared_lamp = ''lamp''"
    by (simp_all add: overheated_def tapped_emitters)
  from dispatchEvent_appends [OF dispatch_shared, of lamp_profile no_throw "[]"]
  have "eventsDispatched (shared_lamp\<lparr>eventsDispatched :=
          eventsDispatched shared_lamp @ [overheated\<lparr>thingId := Some ''lamp''\<rparr>]\<rparr>) =
        eventsDispatched shared_lamp @
        [if thingId overheated = None \<or> thingId overheated = Some []
         then overheated\<lparr>thingId := Some (thing_id shared_lamp)\<rparr> else overheated]"
    by blast
  then have "eventsDispatched (shared_lamp\<lparr>eventsDispatched :=
          eventsDispatched shared_lamp @ [overheated\<lparr>thingId := Some ''lamp''\<rparr>]\<rparr>) =
        [overheated\<lparr>thingId := Some ''lamp''\<rparr>]"
    by (simp only: e i) simp
  then show ?thesis
    using dispatch_shared by blast
qed




text \<open>
  C7. \<open>getDescription(host, secure)\<close> does not mutate the Thing: the Thing's fields are
  as before and the store only grows by new link objects and one new array, so every
  object the Thing refers to is as before. The links of the returned description are the
  Thing's links, followed, exactly when a host is given, by one more link with
  \<^verbatim>\<open>rel\<close> \<^verbatim>\<open>alternate\<close> and href \<^verbatim>\<open>wss://<host><thing href>\<close> when secure and
  \<^verbatim>\<open>ws://<host><thing href>\<close> otherwise; with no host there is no such link. (The last
  of the Thing's links is the UI link, see \<open>construct_links\<close>.)
\<close>

theorem getDescription_projection:
  assumes "getDescription reqHost reqSecure w t = (w', d)"
  shows "(\<exists>l. d_links d = Some l \<and>
            links_of w' l = links_of w (links t) @
              (case reqHost of
                 None \<Rightarrow> []
               | Some host \<Rightarrow>
                   [\<lparr>rel = Some ''alternate'', mediaType = None,
                     link_href = Some ((if reqSecure then ''wss'' else ''ws'') @ ''://'' @ host @ href t)\<rparr>])) \<and>
         (\<exists>ls a. w' = w\<lparr>linkobjs := linkobjs w @ ls, arrs := arrs w @ [a]\<rparr>) \<and>
         step up raises (GetDescription reqHost reqSecure) (w, t) = (w', t)"
proof -
  have w': "w' = fst (getDescription reqHost reqSecure w t)"
    and d: "d = snd (getDescription reqHost reqSecure w t)"
    using assms by simp_all
  have "\<exists>l. d_links d = Some l \<and>
           links_of w' l = links_of w (links t) @
             (case reqHost of
                None \<Rightarrow> []
              | Some host \<Rightarrow>
                  [\<lparr>rel = Some ''alternate'', mediaType = None,
                    link_href = Some ((if reqSecure then ''wss'' else ''ws'') @ ''://'' @ host @ href t)\<rparr>])"
    unfolding w' d
    by (simp add: getDescription_snd links_of_getDescription described_links_def)
  moreover have "\<exists>ls a. w' = w\<lparr>linkobjs := linkobjs w @ ls, arrs := arrs w @ [a]\<rparr>"
    unfolding w' getDescription_world by blast
  moreover have "step up raises (GetDescription reqHost reqSecure) (w, t) = (w', t)"
    by (simp add: w')
  ultimately show ?thesis by blast
qed

theorem getDescription_projection_witness:
  "(\<exists>l. d_links (snd (getDescription (Some ''example.org'') True lamp_world lamp)) = Some l \<and>
      links_of (fst (getDescription (Some ''example.org'') True lamp_world lamp)) l =
        lamp_links @
        [\<lparr>rel = Some ''alternate'', mediaType = None,
          link_href = Some ''wss://example.org/things/lamp''\<rparr>]) \<and>
   (\<exists>l. d_links (snd (getDescription None False lamp_world lamp)) = Some l \<and>
      links_of (fst (getDescription None False lamp_world lamp)) l = lamp_links)"
  using getDescription_projection
          [of "Some ''example.org''" True lamp_world lamp
              "fst (getDescription (Some ''example.org'') True lamp_world lamp)"
              "snd (getDescription (Some ''example.org'') True lamp_world lamp)"]
        getDescription_projection
          [of None False lamp_world lamp
              "fst (getDescription None False lamp_world lamp)"
              "snd (getDescription None False lamp_world lamp)"]
  by (simp add: links_of_lamp) (simp add: lamp_def)

text \<open>
  C8. A \<open>setIcon\<close> call whose data is absent (or empty) or whose mime type is not one
  of \<^verbatim>\<open>image/jpeg\<close>, \<^verbatim>\<open>image/png\<close>, \<^verbatim>\<open>image/svg+xml\<close> only writes an error line to the
  console: the Thing, with its \<^verbatim>\<open>iconHref\<close>, and the files are as before, and nothing
  is persisted.
\<close>

theorem setIcon_invalid:
  assumes "falsy (icon_data icon) \<or>
           mime icon \<notin> {Some ''image/jpeg'', Some ''image/png'', Some ''image/svg+xml''}"
  shows "setIcon up env icon updateDatabase w t =
           (w\<lparr>console := console w @ [''Invalid icon data:'']\<rparr>, t, Undefined)"
  using assms by (simp add: setIcon_def)

theorem setIcon_invalid_witness:
  "setIcon lamp_profile quiet_fs \<lparr>icon_data = Some ''aGVsbG8='', mime = Some ''text/plain''\<rparr> True
       lamp_world lamp =
     (lamp_world\<lparr>console := [''Invalid icon data:'']\<rparr>, lamp, Undefined) \<and>
   iconHref lamp = Some ''/uploads/old.png'' \<and>
   setIcon lamp_profile quiet_fs \<lparr>icon_data = None, mime = Some ''image/png''\<rparr> True
       lamp_world lamp =
     (lamp_world\<lparr>console := [''Invalid icon data:'']\<rparr>, lamp, Undefined)"
  using setIcon_invalid [of "\<lparr>icon_data = Some ''aGVsbG8='', mime = Some ''text/plain''\<rparr>"
          lamp_profile quiet_fs True lamp_world lamp]
        setIcon_invalid [of "\<lparr>icon_data = None, mime = Some ''image/png''\<rparr>"
          lamp_profile quiet_fs True lamp_world lamp]
  by (simp add: falsy_def) (simp add: lamp_world_def lamp_def)

text \<open>
  C9. \<open>remove()\<close> calls \<^verbatim>\<open>close()\<close> on exactly the registered sockets whose state is
  open or connecting; these become closing, every other socket keeps its state. It tries
  to delete the icon file and leaves \<^verbatim>\<open>iconHref\<close> unset whether or not the deletion
  worked; with no icon set it touches no file and logs nothing. (\<^verbatim>\<open>iconHref\<close> is never
  the empty string: the constructor and \<open>setIcon\<close> store none, see
  \<open>Thing_iconHref_nonempty\<close>.)
\<close>

theorem remove_closes_and_clears:
  assumes "remove up env w t = (w', t')" and "iconHref t \<noteq> Some []"
  shows "(\<exists>new. closeRequests w' = closeRequests w @ new \<and>
            set new = {ws \<in> set (websockets t). sockets w ! ws = OPEN \<or> sockets w ! ws = CONNECTING}) \<and>
         length (sockets w') = length (sockets w) \<and>
         (\<forall>ws < length (sockets w).
            sockets w' ! ws =
              (if ws \<in> set (websockets t) \<and> (sockets w ! ws = OPEN \<or> sockets w ! ws = CONNECTING)
               then CLOSING else sockets w ! ws)) \<and>
         t' = t\<lparr>iconHref := None\<rparr> \<and>
         files w' =
           (case iconHref t of
              None \<Rightarrow> files w
            | Some h \<Rightarrow> if unlink_fails env then files w else files w - {path_join (baseDir up) h}) \<and>
         (iconHref t = None \<longrightarrow> console w' = console w)"
proof -
  define w1 where "w1 = fst (unlink_icon up env w t)"
  have t': "t' = t\<lparr>iconHref := None\<rparr>"
    using assms unlink_icon_thing [OF assms(2), of up env w]
    by (simp add: remove_def split: prod.splits)
  have w': "w' = close_loop (websockets t) w1"
    using assms unlink_icon_thing [OF assms(2), of up env w]
    by (auto simp: remove_def w1_def split: prod.splits)
  have s1: "sockets w1 = sockets w" and c1: "closeRequests w1 = closeRequests w"
    by (simp_all add: w1_def unlink_icon_world split: option.splits)
  have f1: "files w1 =
           (case iconHref t of
              None \<Rightarrow> files w
            | Some h \<Rightarrow> if unlink_fails env then files w else files w - {path_join (baseDir up) h})"
    using assms(2) by (auto simp: w1_def unlink_icon_world split: option.splits)
  have o1: "iconHref t = None \<longrightarrow> console w1 = console w"
    by (simp add: w1_def unlink_icon_world)
  have "\<exists>new. closeRequests w' = closeRequests w @ new \<and>
            set new = {ws \<in> set (websockets t). sockets w ! ws = OPEN \<or> sockets w ! ws = CONNECTING}"
    using close_loop_requests [of "websockets t" w1] by (simp add: w' s1 c1)
  moreover have "length (sockets w') = length (sockets w)"
    by (simp add: w' close_loop_length s1)
  moreover have "\<forall>ws < length (sockets w).
            sockets w' ! ws =
              (if ws \<in> set (websockets t) \<and> (sockets w ! ws = OPEN \<or> sockets w ! ws = CONNECTING)
               then CLOSING else sockets w ! ws)"
  proof (intro allI impI)
    fix ws assume "ws < length (sockets w)"
    then have "ws < length (sockets w1)" by (simp add: s1)
    from close_loop_sockets [OF this, of "websockets t"]
    show "sockets w' ! ws =
              (if ws \<in> set (websockets t) \<and> (sockets w ! ws = OPEN \<or> sockets w ! ws = CONNECTING)
               then CLOSING else sockets w ! ws)"
      by (simp only: w' s1)
  qed
  moreover have "files w' =
           (case iconHref t of
              None \<Rightarrow> files w
            | Some h \<Rightarrow> if unlink_fails env then files w else files w - {path_join (baseDir up) h})"
    using f1 close_loop_frame [of "websockets t" w1] by (simp add: w')
  moreover have "iconHref t = None \<longrightarrow> console w' = console w"
    using o1 close_loop_frame [of "websockets t" w1] by (simp add: w')
  ultimately show ?thesis using t' by blast
qed

theorem remove_closes_and_clears_witness:
  "remove lamp_profile quiet_fs lamp_world wired_lamp =
     (lamp_world\<lparr>sockets := [CLOSING, CLOSED], closeRequests := [0], files := {}\<rparr>,
      wired_lamp\<lparr>iconHref := None\<rparr>) \<and>
   iconHref wired_lamp \<noteq> Some [] \<and>
   {ws \<in> set (websockets wired_lamp).
      sockets lamp_world ! ws = OPEN \<or> sockets lamp_world ! ws = CONNECTING} = {0} \<and>
   (\<exists>new. closeRequests (lamp_world\<lparr>sockets := [CLOSING, CLOSED], closeRequests := [0], files := {}\<rparr>) =
            closeRequests lamp_world @ new \<and> set new = {0})"
proof -
  have i: "iconHref wired_lamp \<noteq> Some []"
    by (simp add: wired_lamp_def registerWebsocket_def lamp_def)
  have w: "{ws \<in> set (websockets wired_lamp).
            sockets lamp_world ! ws = OPEN \<or> sockets lamp_world ! ws = CONNECTING} = {0}"
    by (auto simp: wired_lamp_def registerWebsocket_def lamp_def lamp_world_def)
  from remove_closes_and_clears [OF remove_lamp i]
  have "\<exists>new. closeRequests (lamp_world\<lparr>sockets := [CLOSING, CLOSED], closeRequests := [0], files := {}\<rparr>) =
            closeRequests lamp_world @ new \<and> set new = {0}"
    unfolding w by blast
  then show ?thesis
    using remove_lamp i w by blast
qed



end
